theory Spec2Isabelle
  imports Main "HOL-Library.Signed_Division"
begin

section \<open>Intervals (assembly/interval)\<close>

text \<open>
  \<^verbatim>\<open>Interval<T>\<close> has two optional boolean fields; an omitted field reads as
  \<^verbatim>\<open>undefined\<close>, which is falsy. They are modelled as \<open>bool option\<close> and tested with
  \<open>truthyB\<close>. The field \<^verbatim>\<open>end\<close> is written \<open>end'\<close>, the word being reserved.
  The comparisons of the source are those of the element type; for the identifiers of a
  node (\<^verbatim>\<open>bigint\<close>) they are the linear order of the integers.
\<close>

record 'a Interval =
  start :: 'a
  end' :: 'a
  includeStart :: "bool option"
  includeEnd :: "bool option"

definition truthyB :: "bool option \<Rightarrow> bool" where
  "truthyB b = (b = Some True)"

definition withinInterval :: "'a::linorder \<Rightarrow> 'a Interval \<Rightarrow> bool" where
  "withinInterval v i =
     ((if truthyB (includeStart i) then v \<ge> start i else v > start i) \<and>
      (if truthyB (includeEnd i) then v \<le> end' i else v < end' i))"

text \<open>
  The interval on the ring as section 3 of the specification words it, for comparison
  with \<open>withinInterval\<close>: the ordinary test when \<open>start < end\<close>; when \<open>start > end\<close> the
  interval wraps and holds \<open>x\<close> beyond \<open>start\<close> or before \<open>end\<close>, adjusted for inclusivity;
  when \<open>start = end\<close> it holds every \<open>x\<close> other than \<open>start\<close>, and \<open>start\<close> too in the closed
  form.
\<close>

definition within_spec :: "int \<Rightarrow> int \<Rightarrow> int \<Rightarrow> bool \<Rightarrow> bool \<Rightarrow> bool" where
  "within_spec x s e include_start include_end =
     (if s < e then
        (if include_start then s \<le> x else s < x) \<and> (if include_end then x \<le> e else x < e)
      else if s > e then
        (if include_start then s \<le> x else s < x) \<or> (if include_end then x \<le> e else x < e)
      else (include_start \<and> include_end) \<or> x \<noteq> s)"

section \<open>Communication (communication.ts)\<close>

text \<open>
  An identifier is a \<^verbatim>\<open>bigint\<close>. A request is a promise that resolves with the response or
  rejects; a rejection is the value \<open>Inl TransportError\<close>. The node's \<^verbatim>\<open>comm\<close> field is
  never reassigned, so the transport is passed to each operation as an argument. Within
  one operation every kind of request is issued at most once, so a function of the target
  and the payload gives every possible run of that operation. An operation is modelled
  from call to return, as if no other handler of the same node ran while it waited for a
  response. Operations that send requests also return the list of requests they issued.
  Console output is not modelled.

  Modelled from the spec: the request kind \<^verbatim>\<open>GetSuccessorsList\<close>, which \<^verbatim>\<open>stabilize\<close>
  uses, has no declaration in \<^verbatim>\<open>communication.ts\<close>; by section 4.3 of the specification its
  request is empty and its response is a list of identifiers.
\<close>

type_synonym Id = int

datatype error = TransportError | TypeError | RangeError

datatype rpc =
    RpcFindSuccessorForId Id Id
  | RpcGetPredecessor Id
  | RpcNotify Id Id
  | RpcGetSuccessorsList Id
  | RpcPing Id

record Communication =
  FindSuccessorForId :: "Id \<Rightarrow> Id \<Rightarrow> error + Id"
  GetPredecessor :: "Id \<Rightarrow> error + Id option"
  Notify :: "Id \<Rightarrow> Id \<Rightarrow> error + unit"
  GetSuccessorsList :: "Id \<Rightarrow> error + Id list"
  Ping :: "Id \<Rightarrow> error + unit"

section \<open>Node state (node.ts, the revision with successor lists)\<close>

text \<open>
  The class \<^verbatim>\<open>Node\<close> of \<^verbatim>\<open>src/unnamed/part_003\<close>, the revision that has
  \<^verbatim>\<open>successorList\<close>, \<^verbatim>\<open>dead\<close> and \<^verbatim>\<open>getBestSuccessor\<close>. The fields \<^verbatim>\<open>_successor\<close> and
  \<^verbatim>\<open>_predecessor\<close> are \<open>successor\<close> and \<open>predecessor\<close> (the getters return them), \<^verbatim>\<open>id\<close> is
  \<open>ident\<close>. The generator held in \<^verbatim>\<open>fixFingers\<close> is represented by its local variable
  \<^verbatim>\<open>counter\<close>: a number, \<^verbatim>\<open>NaN\<close>, or a generator that has finished.
  A timer handle stored in \<^verbatim>\<open>lifecycleTimeouts\<close> is \<^verbatim>\<open>null\<close>, pending, fired or cleared.
\<close>

typedecl StoragePiece

record FingerEntity =
  key :: Id
  nodeId :: Id

datatype FixFingersGen = Counter nat | CounterNaN | GenDone

datatype Timeout = TNull | TPending | TFired | TCleared

record LifecycleTimeouts =
  stab :: Timeout
  fing :: Timeout
  pred :: Timeout

record Node =
  ident :: Id
  successor :: Id
  predecessor :: "Id option"
  successorList :: "Id list"
  fingers :: "FingerEntity list"
  storage :: "string \<rightharpoonup> StoragePiece"
  dead :: bool
  logging :: bool
  fixFingers :: FixFingersGen
  lifecycleActive :: bool
  lifecycleTimeouts :: LifecycleTimeouts

definition KEY_BITS :: nat where
  "KEY_BITS = 8"

text \<open>\<^verbatim>\<open>Math.ceil(Math.log(KEY_BITS))\<close>: the natural logarithm of 8 is 2.079..., so 3.\<close>

definition MAX_SUCCESSORS_LIST_LENGTH :: nat where
  "MAX_SUCCESSORS_LIST_LENGTH = 3"

text \<open>
  JavaScript truthiness of an \<^verbatim>\<open>Id | undefined\<close>: \<^verbatim>\<open>undefined\<close> and \<^verbatim>\<open>0n\<close> are falsy.
\<close>

definition truthyId :: "Id option \<Rightarrow> bool" where
  "truthyId p = (case p of None \<Rightarrow> False | Some v \<Rightarrow> v \<noteq> 0)"

text \<open>
  Modelled from the spec: \<^verbatim>\<open>shell\<close> of \<^verbatim>\<open>assembly/utility\<close> is absent; the finger table
  has one entry per index below the key width (section 3), so \<^verbatim>\<open>shell(length)\<close> is an
  array of that length whose elements are ignored.
\<close>

definition shell :: "nat \<Rightarrow> unit list" where
  "shell len = replicate len ()"

text \<open>The remainder of \<^verbatim>\<open>bigint\<close> takes the sign of the dividend: \<open>smod\<close>.\<close>

definition generateFingerId :: "Id \<Rightarrow> nat \<Rightarrow> Id" where
  "generateFingerId self fingerIndex = (self + 2 ^ fingerIndex) smod 2 ^ KEY_BITS"

definition createFingerTable :: "Id \<Rightarrow> FingerEntity list" where
  "createFingerTable self =
     map (\<lambda>i. \<lparr>key = generateFingerId self i, nodeId = self\<rparr>)
         [0 ..< length (shell KEY_BITS)]"

text \<open>
  The constructor; its second argument is \<open>None\<close> when the caller omits \<^verbatim>\<open>successor\<close>
  (the default is \<^verbatim>\<open>id\<close>). The default of \<^verbatim>\<open>id\<close> is a random number: the caller's choice.
\<close>

definition Node_constructor :: "Id \<Rightarrow> Id option \<Rightarrow> Node" where
  "Node_constructor i s =
     \<lparr>ident = i,
      successor = (case s of None \<Rightarrow> i | Some s' \<Rightarrow> s'),
      predecessor = None,
      successorList = [],
      fingers = createFingerTable i,
      storage = Map.empty,
      dead = False,
      logging = True,
      fixFingers = Counter 0,
      lifecycleActive = False,
      lifecycleTimeouts = \<lparr>stab = TNull, fing = TNull, pred = TNull\<rparr>\<rparr>"

subsection \<open>The successor list\<close>

text \<open>\<^verbatim>\<open>Array.from(new Set(xs))\<close>: the first occurrence of each element, in order.\<close>

definition uniqueInOrder :: "'a list \<Rightarrow> 'a list" where
  "uniqueInOrder xs = fold (\<lambda>x acc. if x \<in> set acc then acc else acc @ [x]) xs []"

definition successorsCompare :: "Id \<Rightarrow> Id \<Rightarrow> Id \<Rightarrow> int" where
  "successorsCompare self n1 n2 =
     (let n1Next = n1 > self; n2Next = n2 > self in
      if (n1Next \<and> n2Next) \<or> (\<not> n1Next \<and> \<not> n2Next)
      then (if n1 - n2 \<ge> 0 then 1 else - 1)
      else if n1Next \<and> \<not> n2Next then - 1 else 1)"

text \<open>
  \<^verbatim>\<open>Array.prototype.sort\<close> with a comparator, as an insertion sort: an element goes after
  those it compares greater than.
\<close>

fun insertBy :: "('a \<Rightarrow> 'a \<Rightarrow> int) \<Rightarrow> 'a \<Rightarrow> 'a list \<Rightarrow> 'a list" where
  "insertBy cmp x [] = [x]"
| "insertBy cmp x (y # ys) = (if cmp x y > 0 then y # insertBy cmp x ys else x # y # ys)"

definition sortBy :: "('a \<Rightarrow> 'a \<Rightarrow> int) \<Rightarrow> 'a list \<Rightarrow> 'a list" where
  "sortBy cmp xs = foldr (insertBy cmp) xs []"

definition updateSuccesorsList :: "Id list \<Rightarrow> Node \<Rightarrow> Node" where
  "updateSuccesorsList newList n =
     n\<lparr>successorList :=
         take MAX_SUCCESSORS_LIST_LENGTH
           (sortBy (successorsCompare (ident n))
              (uniqueInOrder (newList @ successorList n)))\<rparr>"

text \<open>\<^verbatim>\<open>this.successorList[0] || this.id\<close>: a first entry \<^verbatim>\<open>0n\<close> is falsy.\<close>

definition getBestSuccessor :: "Node \<Rightarrow> Id" where
  "getBestSuccessor n =
     (case successorList n of
        [] \<Rightarrow> ident n
      | x # xs \<Rightarrow> if x \<noteq> 0 then x else ident n)"

subsection \<open>The setters\<close>

text \<open>\<^verbatim>\<open>indexOf\<close> followed by \<^verbatim>\<open>splice(index, 1)\<close> removes the first occurrence: \<open>remove1\<close>.\<close>

definition set_successor :: "Id \<Rightarrow> Node \<Rightarrow> Node" where
  "set_successor succ n =
     (let n1 = n\<lparr>successorList := remove1 (successor n) (successorList n)\<rparr>;
          n2 = n1\<lparr>successor := succ\<rparr>;
          n3 = n2\<lparr>dead := (successor n2 = ident n2 \<and> \<not> truthyId (predecessor n2))\<rparr>
      in if succ \<notin> set (successorList n3) then updateSuccesorsList [succ] n3 else n3)"

definition set_predecessor :: "Id option \<Rightarrow> Node \<Rightarrow> Node" where
  "set_predecessor p n =
     (let n1 = n\<lparr>predecessor := p\<rparr>
      in n1\<lparr>dead := (successor n1 = ident n1 \<and> \<not> truthyId (predecessor n1))\<rparr>)"

subsection \<open>Routing\<close>

definition requestSuccessor :: "Communication \<Rightarrow> Id \<Rightarrow> Id \<Rightarrow> (error + Id) \<times> rpc list" where
  "requestSuccessor comm targetNode k =
     (FindSuccessorForId comm targetNode k, [RpcFindSuccessorForId targetNode k])"

text \<open>\<^verbatim>\<open>findLastIndex\<close> of lodash: the last index whose element satisfies, or \<open>- 1\<close>.\<close>

fun findLastIndex :: "'a list \<Rightarrow> ('a \<Rightarrow> bool) \<Rightarrow> int" where
  "findLastIndex [] P = - 1"
| "findLastIndex (x # xs) P =
     (let r = findLastIndex xs P in
      if r \<noteq> - 1 then r + 1 else if P x then 0 else - 1)"

definition getClosestPrecedingNode :: "Node \<Rightarrow> Id \<Rightarrow> Id" where
  "getClosestPrecedingNode n k =
     (let fingerIndex =
            findLastIndex (fingers n)
              (\<lambda>f. withinInterval (nodeId f)
                     \<lparr>start = ident n, end' = k, includeStart = None, includeEnd = None\<rparr>)
      in if fingerIndex = - 1 then ident n else nodeId (fingers n ! nat fingerIndex))"

definition findSuccessorForKey :: "Communication \<Rightarrow> Node \<Rightarrow> Id \<Rightarrow> (error + Id) \<times> rpc list" where
  "findSuccessorForKey comm n k =
     (let within = withinInterval k
            \<lparr>start = ident n, end' = successor n, includeStart = None, includeEnd = Some True\<rparr>
      in if within then (Inr (successor n), [])
         else let preNodeId = getClosestPrecedingNode n k
              in if preNodeId = ident n then (Inr (ident n), [])
                 else (case requestSuccessor comm preNodeId k of
                         (Inr r, t) \<Rightarrow> (Inr r, t)
                       | (Inl e, t) \<Rightarrow> (Inr (ident n), t)))"

definition joinNode :: "Communication \<Rightarrow> Id \<Rightarrow> Node \<Rightarrow> (error + Node) \<times> rpc list" where
  "joinNode comm targetNodeId n =
     (case FindSuccessorForId comm targetNodeId (ident n) of
        Inl e \<Rightarrow> (Inl e, [RpcFindSuccessorForId targetNodeId (ident n)])
      | Inr r \<Rightarrow> (Inr (set_successor r n), [RpcFindSuccessorForId targetNodeId (ident n)]))"

subsection \<open>Maintenance\<close>

text \<open>
  \<^verbatim>\<open>stabilize\<close>: \<open>stabilizeTry\<close> is the body of the \<^verbatim>\<open>try\<close> block; it returns whether a
  request was rejected, the state at that moment (or at the end), and the requests sent.
  \<open>stabilizeCatch\<close> is the \<^verbatim>\<open>catch\<close> block. A predecessor \<^verbatim>\<open>0n\<close> reported by the successor
  is falsy and is not adopted.
\<close>

definition stabilizeTry :: "Communication \<Rightarrow> Node \<Rightarrow> (error + unit) \<times> Node \<times> rpc list" where
  "stabilizeTry comm n =
     (case GetPredecessor comm (successor n) of
        Inl e \<Rightarrow> (Inl e, n, [RpcGetPredecessor (successor n)])
      | Inr preId \<Rightarrow>
          (let n1 = (case preId of
                       None \<Rightarrow> n
                     | Some p \<Rightarrow>
                         if truthyId preId \<and>
                            withinInterval p
                              \<lparr>start = ident n, end' = successor n,
                               includeStart = None, includeEnd = None\<rparr>
                         then set_successor p n else n);
               t1 = [RpcGetPredecessor (successor n), RpcNotify (successor n1) (ident n1)]
           in (case Notify comm (successor n1) (ident n1) of
                 Inl e \<Rightarrow> (Inl e, n1, t1)
               | Inr u \<Rightarrow>
                   (case GetSuccessorsList comm (successor n1) of
                      Inl e \<Rightarrow> (Inl e, n1, t1 @ [RpcGetSuccessorsList (successor n1)])
                    | Inr newSuccList \<Rightarrow>
                        (Inr (), updateSuccesorsList newSuccList n1,
                         t1 @ [RpcGetSuccessorsList (successor n1)])))))"

definition stabilizeCatch :: "Node \<Rightarrow> Node" where
  "stabilizeCatch n =
     (let n1 = n\<lparr>successorList := remove1 (successor n) (successorList n)\<rparr>
      in set_successor (getBestSuccessor n1) n1)"

definition stabilize :: "Communication \<Rightarrow> Node \<Rightarrow> Node \<times> rpc list" where
  "stabilize comm n =
     (if successor n = ident n then (n, [])
      else (case stabilizeTry comm n of
              (Inl e, m, t) \<Rightarrow> (stabilizeCatch m, t)
            | (Inr u, m, t) \<Rightarrow> (m, t)))"

definition notify :: "Id \<Rightarrow> Node \<Rightarrow> Node" where
  "notify i n =
     (if \<not> truthyId (predecessor n) \<or>
         (case predecessor n of
            None \<Rightarrow> False
          | Some p \<Rightarrow> withinInterval i
                        \<lparr>start = p, end' = ident n, includeStart = None, includeEnd = None\<rparr>)
      then set_predecessor (Some i) n else n)"

text \<open>
  One \<^verbatim>\<open>next()\<close> of the generator \<^verbatim>\<open>fixFingersGenerator\<close>: one turn of its loop, up to the
  \<^verbatim>\<open>yield\<close>. Assigning to \<^verbatim>\<open>this.fingers[counter].nodeId\<close> when there is no such entry
  throws a \<^verbatim>\<open>TypeError\<close>, which ends the generator. \<^verbatim>\<open>(counter + 1) % 0\<close> is \<^verbatim>\<open>NaN\<close>,
  and \<^verbatim>\<open>BigInt(NaN)\<close> throws a \<^verbatim>\<open>RangeError\<close> at the next turn.
\<close>

definition fixFingersNext :: "Communication \<Rightarrow> Node \<Rightarrow> error option \<times> Node" where
  "fixFingersNext comm n =
     (case fixFingers n of
        GenDone \<Rightarrow> (None, n)
      | CounterNaN \<Rightarrow> (Some RangeError, n\<lparr>fixFingers := GenDone\<rparr>)
      | Counter c \<Rightarrow>
          if c < length (fingers n) then
            (case fst (findSuccessorForKey comm n (ident n + 2 ^ c)) of
               Inl e \<Rightarrow> (Some e, n\<lparr>fixFingers := GenDone\<rparr>)
             | Inr r \<Rightarrow>
                 (None,
                  n\<lparr>fingers := (fingers n)[c := (fingers n ! c)\<lparr>nodeId := r\<rparr>],
                    fixFingers :=
                      (if length (fingers n) - 1 = 0 then CounterNaN
                       else Counter ((c + 1) mod (length (fingers n) - 1)))\<rparr>))
          else (Some TypeError, n\<lparr>fixFingers := GenDone\<rparr>))"

text \<open>Successive ticks, each with the transport as it answers at that tick.\<close>

fun fixFingersRun :: "Communication list \<Rightarrow> Node \<Rightarrow> error option \<times> Node" where
  "fixFingersRun [] n = (None, n)"
| "fixFingersRun (comm # comms) n =
     (case fixFingersNext comm n of
        (Some e, n') \<Rightarrow> (Some e, n')
      | (None, n') \<Rightarrow> fixFingersRun comms n')"

definition checkPredecessor :: "Communication \<Rightarrow> Node \<Rightarrow> Node \<times> rpc list" where
  "checkPredecessor comm n =
     (if \<not> truthyId (predecessor n) then (n, [])
      else (case predecessor n of
              None \<Rightarrow> (n, [])
            | Some p \<Rightarrow>
                (case Ping comm p of
                   Inl e \<Rightarrow> (set_predecessor None n, [RpcPing p])
                 | Inr u \<Rightarrow> (n, [RpcPing p]))))"

subsection \<open>Lifecycle\<close>

text \<open>
  \<^verbatim>\<open>startLifecycle\<close> returns the tick functions it invokes. Time is not modelled: the
  periods only reach \<^verbatim>\<open>setTimeout\<close>.
\<close>

datatype Task = TickStabilize | TickFixFingers | TickCheckPredecessor

definition startLifecycle :: "nat \<Rightarrow> nat \<Rightarrow> nat \<Rightarrow> Node \<Rightarrow> Node \<times> Task list" where
  "startLifecycle periodStabilize periodFixFingers periodCheckPredecessor n =
     (if lifecycleActive n then (n, [])
      else (n\<lparr>lifecycleActive := True\<rparr>,
            [TickStabilize, TickFixFingers, TickCheckPredecessor]))"

text \<open>\<^verbatim>\<open>clearTimeout\<close> cancels a pending timer and does nothing otherwise.\<close>

definition clearTimeout :: "Timeout \<Rightarrow> Timeout" where
  "clearTimeout t = (case t of TPending \<Rightarrow> TCleared | TNull \<Rightarrow> TNull
                     | TFired \<Rightarrow> TFired | TCleared \<Rightarrow> TCleared)"

definition stopLifecycle :: "Node \<Rightarrow> Node" where
  "stopLifecycle n =
     n\<lparr>lifecycleTimeouts :=
         \<lparr>stab = clearTimeout (stab (lifecycleTimeouts n)),
          fing = clearTimeout (fing (lifecycleTimeouts n)),
          pred = clearTimeout (pred (lifecycleTimeouts n))\<rparr>\<rparr>"

text \<open>
  The node in its event loop. \<open>inflight\<close> lists the ticks that have been invoked and have
  not yet resolved. An event is a call of \<^verbatim>\<open>startLifecycle\<close> or \<^verbatim>\<open>stopLifecycle\<close>, the
  resolution of a tick in flight (its operation runs with the transport's answers and the
  tick then stores a new pending timer; a tick whose operation throws stores none), the
  firing of a pending timer (the tick is invoked again), or an incoming \<^verbatim>\<open>notify\<close>.
\<close>

record World =
  node :: Node
  inflight :: "Task list"

datatype Event =
    CallStartLifecycle nat nat nat
  | CallStopLifecycle
  | TickResolves Task Communication
  | TimerFires Task
  | CallNotify Id

definition timeoutOf :: "Task \<Rightarrow> LifecycleTimeouts \<Rightarrow> Timeout" where
  "timeoutOf t l = (case t of TickStabilize \<Rightarrow> stab l | TickFixFingers \<Rightarrow> fing l
                    | TickCheckPredecessor \<Rightarrow> pred l)"

definition setTimeoutOf :: "Task \<Rightarrow> Timeout \<Rightarrow> Node \<Rightarrow> Node" where
  "setTimeoutOf t v n =
     (case t of
        TickStabilize \<Rightarrow> n\<lparr>lifecycleTimeouts := (lifecycleTimeouts n)\<lparr>stab := v\<rparr>\<rparr>
      | TickFixFingers \<Rightarrow> n\<lparr>lifecycleTimeouts := (lifecycleTimeouts n)\<lparr>fing := v\<rparr>\<rparr>
      | TickCheckPredecessor \<Rightarrow> n\<lparr>lifecycleTimeouts := (lifecycleTimeouts n)\<lparr>pred := v\<rparr>\<rparr>)"

definition tickBody :: "Task \<Rightarrow> Communication \<Rightarrow> Node \<Rightarrow> error option \<times> Node" where
  "tickBody t comm n =
     (case t of
        TickStabilize \<Rightarrow> (None, fst (stabilize comm n))
      | TickFixFingers \<Rightarrow> fixFingersNext comm n
      | TickCheckPredecessor \<Rightarrow> (None, fst (checkPredecessor comm n)))"

definition step :: "Event \<Rightarrow> World \<Rightarrow> World" where
  "step ev w =
     (case ev of
        CallStartLifecycle a b c \<Rightarrow>
          (case startLifecycle a b c (node w) of
             (n', ts) \<Rightarrow> w\<lparr>node := n', inflight := inflight w @ ts\<rparr>)
      | CallStopLifecycle \<Rightarrow> w\<lparr>node := stopLifecycle (node w)\<rparr>
      | TickResolves t comm \<Rightarrow>
          if t \<in> set (inflight w) then
            (case tickBody t comm (node w) of
               (None, n') \<Rightarrow>
                 w\<lparr>node := setTimeoutOf t TPending n', inflight := remove1 t (inflight w)\<rparr>
             | (Some e, n') \<Rightarrow> w\<lparr>node := n', inflight := remove1 t (inflight w)\<rparr>)
          else w
      | TimerFires t \<Rightarrow>
          if timeoutOf t (lifecycleTimeouts (node w)) = TPending
          then w\<lparr>node := setTimeoutOf t TFired (node w), inflight := inflight w @ [t]\<rparr>
          else w
      | CallNotify i \<Rightarrow> w\<lparr>node := notify i (node w)\<rparr>)"

definition run :: "Event list \<Rightarrow> World \<Rightarrow> World" where
  "run evs w = fold step evs w"

section \<open>The revision without successor lists (src/src/node.ts)\<close>

text \<open>
  The class \<^verbatim>\<open>Node\<close> of \<^verbatim>\<open>src/src/node.ts\<close>, an earlier revision: it has no
  \<^verbatim>\<open>successorList\<close> and no \<^verbatim>\<open>dead\<close>, its setters only store the value (and log), its
  \<^verbatim>\<open>KEY_BITS\<close> is 6, and its \<^verbatim>\<open>stabilize\<close> asks the predecessor for a successor when the
  node is its own successor. Its fields carry the suffix \<open>_e\<close>.
\<close>

record NodeEarlier =
  ident_e :: Id
  successor_e :: Id
  predecessor_e :: "Id option"
  fingers_e :: "FingerEntity list"
  storage_e :: "string \<rightharpoonup> StoragePiece"
  logging_e :: bool
  fixFingers_e :: FixFingersGen
  lifecycleActive_e :: bool
  lifecycleTimeouts_e :: LifecycleTimeouts

definition KEY_BITS_e :: nat where
  "KEY_BITS_e = 6"

definition generateFingerId_e :: "Id \<Rightarrow> nat \<Rightarrow> Id" where
  "generateFingerId_e self fingerIndex = (self + 2 ^ fingerIndex) smod 2 ^ KEY_BITS_e"

definition createFingerTable_e :: "Id \<Rightarrow> FingerEntity list" where
  "createFingerTable_e self =
     map (\<lambda>i. \<lparr>key = generateFingerId_e self i, nodeId = self\<rparr>)
         [0 ..< length (shell KEY_BITS_e)]"

definition NodeEarlier_constructor :: "Id \<Rightarrow> Id option \<Rightarrow> NodeEarlier" where
  "NodeEarlier_constructor i s =
     \<lparr>ident_e = i,
      successor_e = (case s of None \<Rightarrow> i | Some s' \<Rightarrow> s'),
      predecessor_e = None,
      fingers_e = createFingerTable_e i,
      storage_e = Map.empty,
      logging_e = True,
      fixFingers_e = Counter 0,
      lifecycleActive_e = False,
      lifecycleTimeouts_e = \<lparr>stab = TNull, fing = TNull, pred = TNull\<rparr>\<rparr>"

definition set_successor_e :: "Id \<Rightarrow> NodeEarlier \<Rightarrow> NodeEarlier" where
  "set_successor_e succ n = n\<lparr>successor_e := succ\<rparr>"

definition set_predecessor_e :: "Id option \<Rightarrow> NodeEarlier \<Rightarrow> NodeEarlier" where
  "set_predecessor_e p n = n\<lparr>predecessor_e := p\<rparr>"

definition notify_e :: "Id \<Rightarrow> NodeEarlier \<Rightarrow> NodeEarlier" where
  "notify_e i n =
     (if \<not> truthyId (predecessor_e n) \<or>
         (case predecessor_e n of
            None \<Rightarrow> False
          | Some p \<Rightarrow> withinInterval i
                        \<lparr>start = p, end' = ident_e n, includeStart = None, includeEnd = None\<rparr>)
      then set_predecessor_e (Some i) n else n)"

definition stabilize_e :: "Communication \<Rightarrow> NodeEarlier \<Rightarrow> NodeEarlier \<times> rpc list" where
  "stabilize_e comm n =
     (if successor_e n = ident_e n then
        (if truthyId (predecessor_e n) then
           (case predecessor_e n of
              None \<Rightarrow> (n, [])
            | Some p \<Rightarrow>
                (case requestSuccessor comm p (ident_e n) of
                   (Inr r, t) \<Rightarrow> (set_successor_e r n, t)
                 | (Inl e, t) \<Rightarrow> (set_predecessor_e None n, t)))
         else (n, []))
      else
        (case GetPredecessor comm (successor_e n) of
           Inl e \<Rightarrow> (set_successor_e (ident_e n) n, [RpcGetPredecessor (successor_e n)])
         | Inr preId \<Rightarrow>
             (let n1 = (case preId of
                          None \<Rightarrow> n
                        | Some p \<Rightarrow>
                            if truthyId preId \<and>
                               withinInterval p
                                 \<lparr>start = ident_e n, end' = successor_e n,
                                  includeStart = None, includeEnd = None\<rparr>
                            then set_successor_e p n else n);
                  t1 = [RpcGetPredecessor (successor_e n),
                        RpcNotify (successor_e n1) (ident_e n1)]
              in (case Notify comm (successor_e n1) (ident_e n1) of
                    Inl e \<Rightarrow> (set_successor_e (ident_e n1) n1, t1)
                  | Inr u \<Rightarrow> (n1, t1)))))"

section \<open>Example states and transports\<close>

text \<open>
  Node 10 after it joined a ring through node 40: successor 40, successor list \<open>[40]\<close>,
  no predecessor.
\<close>

definition joined10 :: Node where
  "joined10 = set_successor 40 (Node_constructor 10 None)"

text \<open>A transport on which every request is rejected.\<close>

definition unreachable :: Communication where
  "unreachable =
     \<lparr>FindSuccessorForId = (\<lambda>t k. Inl TransportError),
      GetPredecessor = (\<lambda>t. Inl TransportError),
      Notify = (\<lambda>t k. Inl TransportError),
      GetSuccessorsList = (\<lambda>t. Inl TransportError),
      Ping = (\<lambda>t. Inl TransportError)\<rparr>"

text \<open>
  The transport of the two-node ring of nodes 10 and 40, seen from node 10: node 40 has
  predecessor 10, successor 10 and successor list \<open>[10]\<close>, and its fingers all point
  to itself, so that it answers every lookup with 40.
\<close>

definition ring_10_40 :: Communication where
  "ring_10_40 =
     \<lparr>FindSuccessorForId = (\<lambda>t k. if t = 40 then Inr 40 else Inl TransportError),
      GetPredecessor = (\<lambda>t. if t = 40 then Inr (Some 10) else Inl TransportError),
      Notify = (\<lambda>t k. if t = 40 then Inr () else Inl TransportError),
      GetSuccessorsList = (\<lambda>t. if t = 40 then Inr [10] else Inl TransportError),
      Ping = (\<lambda>t. if t = 40 then Inr () else Inl TransportError)\<rparr>"

text \<open>Node 10 with successor 40 and successor list \<open>[40, 50]\<close>.\<close>

definition joined10_50 :: Node where
  "joined10_50 = updateSuccesorsList [50] joined10"

text \<open>
  Node 10 after one tick of \<^verbatim>\<open>fixFingers\<close> in the two-node ring: finger 0 points to 40.
\<close>

definition fixed10 :: Node where
  "fixed10 = snd (fixFingersNext ring_10_40 joined10)"

text \<open>
  Node 40 after it joined a ring through node 10: successor 10, the last node before the
  ring wraps.
\<close>

definition joined40 :: Node where
  "joined40 = set_successor 10 (Node_constructor 40 None)"

text \<open>
  In the earlier revision: node 10, which started the ring alone, after node 40 joined
  through it and notified it. It is still its own successor and has predecessor 40.
\<close>

definition notified10_e :: NodeEarlier where
  "notified10_e = notify_e 40 (NodeEarlier_constructor 10 None)"

text \<open>Node 10 in its event loop, before the lifecycle is started.\<close>

definition world10 :: World where
  "world10 = \<lparr>node = joined10, inflight = []\<rparr>"

section \<open>The interval test is linear\<close>

text \<open>
  C1, as the claim states it, at \<open>start = 5\<close>, \<open>end = 3\<close>, \<open>x = 7\<close>: the claim makes
  7 a member of the open wrapped interval (because \<open>7 > 5\<close>), the code does not.
\<close>

theorem C1_wrap_counterexample:
  "\<not> (withinInterval (7::int)
         \<lparr>start = 5, end' = 3, includeStart = Some False, includeEnd = Some False\<rparr>
       \<longleftrightarrow> ((7::int) > 5 \<or> (7::int) < 3))"
  by (simp add: withinInterval_def truthyB_def)

text \<open>
  C1 (amended): the open interval test is the linear one, \<open>start < x < end\<close>; hence for
  \<open>start > end\<close> and for \<open>start = end\<close> it holds for no \<open>x\<close>.
\<close>

theorem C1_within_open_linear:
  fixes x s e :: int
  shows "(withinInterval x
            \<lparr>start = s, end' = e, includeStart = Some False, includeEnd = Some False\<rparr>
          \<longleftrightarrow> s < x \<and> x < e)
       \<and> (e \<le> s \<longrightarrow>
            \<not> withinInterval x
                \<lparr>start = s, end' = e, includeStart = Some False, includeEnd = Some False\<rparr>)"
  by (auto simp add: withinInterval_def truthyB_def)

theorem C1_within_open_linear_witness:
  "(3::int) \<le> 5
   \<and> \<not> withinInterval (7::int)
         \<lparr>start = 5, end' = 3, includeStart = Some False, includeEnd = Some False\<rparr>
   \<and> \<not> withinInterval (4::int)
         \<lparr>start = 4, end' = 4, includeStart = Some False, includeEnd = Some False\<rparr>"
  using C1_within_open_linear [of 7 5 3] C1_within_open_linear [of 4 4 4] by simp

text \<open>
  C9, as the claim states it, at \<open>a = 1\<close>, \<open>b = 5\<close>, \<open>x = 7\<close>: neither of the two
  half-open tests holds, so it is not the case that exactly one does.
\<close>

theorem C9_complement_counterexample:
  "\<not> (withinInterval (7::int)
         \<lparr>start = 1, end' = 5, includeStart = Some False, includeEnd = Some True\<rparr>
       \<noteq> withinInterval (7::int)
         \<lparr>start = 5, end' = 1, includeStart = Some False, includeEnd = Some True\<rparr>)"
  by (simp add: withinInterval_def truthyB_def)

text \<open>
  C9 (amended): for \<open>a \<noteq> b\<close> and \<open>x\<close> different from both, the two tests
  \<open>within(x, a, b, false, true)\<close> and \<open>within(x, b, a, false, true)\<close> never hold together,
  and one of them holds exactly when \<open>x\<close> lies strictly between the smaller and the larger
  of \<open>a\<close> and \<open>b\<close>.
\<close>

theorem C9_complement_linear:
  fixes x a b :: int
  assumes "a \<noteq> b" and "x \<noteq> a" and "x \<noteq> b"
  shows "\<not> (withinInterval x
               \<lparr>start = a, end' = b, includeStart = Some False, includeEnd = Some True\<rparr>
            \<and> withinInterval x
               \<lparr>start = b, end' = a, includeStart = Some False, includeEnd = Some True\<rparr>)
       \<and> ((withinInterval x
               \<lparr>start = a, end' = b, includeStart = Some False, includeEnd = Some True\<rparr>
            \<or> withinInterval x
               \<lparr>start = b, end' = a, includeStart = Some False, includeEnd = Some True\<rparr>)
           \<longleftrightarrow> min a b < x \<and> x < max a b)"
  using assms by (auto simp add: withinInterval_def truthyB_def)

theorem C9_complement_linear_witness:
  "(1::int) \<noteq> 5 \<and> (3::int) \<noteq> 1 \<and> (3::int) \<noteq> 5
   \<and> \<not> (withinInterval (3::int)
            \<lparr>start = 1, end' = 5, includeStart = Some False, includeEnd = Some True\<rparr>
          \<and> withinInterval (3::int)
            \<lparr>start = 5, end' = 1, includeStart = Some False, includeEnd = Some True\<rparr>)
   \<and> (withinInterval (3::int)
            \<lparr>start = 1, end' = 5, includeStart = Some False, includeEnd = Some True\<rparr>
        \<or> withinInterval (3::int)
            \<lparr>start = 5, end' = 1, includeStart = Some False, includeEnd = Some True\<rparr>)"
  using C9_complement_linear [of 1 5 3] by simp

section \<open>Frame and membership lemmas\<close>

lemma updateSuccesorsList_frame:
  "ident (updateSuccesorsList c n) = ident n"
  "successor (updateSuccesorsList c n) = successor n"
  "predecessor (updateSuccesorsList c n) = predecessor n"
  "fingers (updateSuccesorsList c n) = fingers n"
  "storage (updateSuccesorsList c n) = storage n"
  "dead (updateSuccesorsList c n) = dead n"
  "logging (updateSuccesorsList c n) = logging n"
  "fixFingers (updateSuccesorsList c n) = fixFingers n"
  "lifecycleActive (updateSuccesorsList c n) = lifecycleActive n"
  "lifecycleTimeouts (updateSuccesorsList c n) = lifecycleTimeouts n"
  by (simp_all add: updateSuccesorsList_def)

lemma set_successor_frame:
  "ident (set_successor s n) = ident n"
  "successor (set_successor s n) = s"
  "predecessor (set_successor s n) = predecessor n"
  "fingers (set_successor s n) = fingers n"
  "storage (set_successor s n) = storage n"
  "dead (set_successor s n) = (s = ident n \<and> \<not> truthyId (predecessor n))"
  "logging (set_successor s n) = logging n"
  "fixFingers (set_successor s n) = fixFingers n"
  "lifecycleActive (set_successor s n) = lifecycleActive n"
  "lifecycleTimeouts (set_successor s n) = lifecycleTimeouts n"
  by (simp_all add: set_successor_def Let_def updateSuccesorsList_frame)

lemma set_predecessor_frame:
  "ident (set_predecessor p n) = ident n"
  "successor (set_predecessor p n) = successor n"
  "predecessor (set_predecessor p n) = p"
  "successorList (set_predecessor p n) = successorList n"
  "fingers (set_predecessor p n) = fingers n"
  "storage (set_predecessor p n) = storage n"
  "dead (set_predecessor p n) = (successor n = ident n \<and> \<not> truthyId p)"
  "logging (set_predecessor p n) = logging n"
  "fixFingers (set_predecessor p n) = fixFingers n"
  "lifecycleActive (set_predecessor p n) = lifecycleActive n"
  "lifecycleTimeouts (set_predecessor p n) = lifecycleTimeouts n"
  by (simp_all add: set_predecessor_def Let_def)

lemma successorList_set_successor_present:
  assumes "s \<in> set (remove1 (successor n) (successorList n))"
  shows "successorList (set_successor s n) = remove1 (successor n) (successorList n)"
  using assms by (simp add: set_successor_def Let_def)

lemma successorList_set_successor_empty:
  assumes "remove1 (successor n) (successorList n) = []"
  shows "successorList (set_successor s n) = [s]"
  using assms
  by (simp add: set_successor_def Let_def updateSuccesorsList_def uniqueInOrder_def
        sortBy_def MAX_SUCCESSORS_LIST_LENGTH_def)

lemma set_fold_uniq:
  "set (fold (\<lambda>x acc. if x \<in> set acc then acc else acc @ [x]) xs acc) = set xs \<union> set acc"
  by (induction xs arbitrary: acc) auto

lemma set_uniqueInOrder: "set (uniqueInOrder xs) = set xs"
  by (simp add: uniqueInOrder_def set_fold_uniq)

lemma set_insertBy: "set (insertBy cmp x ys) = insert x (set ys)"
  by (induction ys) auto

lemma set_sortBy: "set (sortBy cmp xs) = set xs"
  by (induction xs) (simp_all add: sortBy_def set_insertBy)

lemma successorList_updateSuccesorsList:
  "set (successorList (updateSuccesorsList c n)) \<subseteq> set c \<union> set (successorList n)"
proof -
  have "set (successorList (updateSuccesorsList c n))
          \<subseteq> set (sortBy (successorsCompare (ident n)) (uniqueInOrder (c @ successorList n)))"
    by (simp add: updateSuccesorsList_def set_take_subset)
  then show ?thesis by (simp add: set_sortBy set_uniqueInOrder)
qed

lemma successorList_set_successor:
  "set (successorList (set_successor s n)) \<subseteq> insert s (set (successorList n))"
proof -
  have r: "set (remove1 (successor n) (successorList n)) \<subseteq> set (successorList n)"
    by (rule set_remove1_subset)
  show ?thesis
    using successorList_updateSuccesorsList
      [of "[s]" "n\<lparr>successorList := remove1 (successor n) (successorList n), successor := s,
               dead := (s = ident n \<and> \<not> truthyId (predecessor n))\<rparr>"] r
    by (auto simp add: set_successor_def Let_def)
qed

lemma stabilizeTry_success_list:
  assumes "stabilizeTry comm n = (Inr u, m, t)"
  shows "ident m = ident n
     \<and> (\<exists>l. GetSuccessorsList comm (successor m) = Inr l
             \<and> set (successorList m) \<subseteq> set l \<union> set (successorList n) \<union> {p. ident n < p})"
proof (cases "GetPredecessor comm (successor n)")
  case (Inl e)
  with assms show ?thesis by (simp add: stabilizeTry_def)
next
  case (Inr preId)
  define n1 where "n1 = (case preId of
                       None \<Rightarrow> n
                     | Some p \<Rightarrow>
                         if truthyId preId \<and>
                            withinInterval p
                              \<lparr>start = ident n, end' = successor n,
                               includeStart = None, includeEnd = None\<rparr>
                         then set_successor p n else n)"
  have id1: "ident n1 = ident n"
    by (simp add: n1_def set_successor_frame split: option.splits)
  have l1: "set (successorList n1) \<subseteq> set (successorList n) \<union> {p. ident n < p}"
    using successorList_set_successor
    by (auto simp add: n1_def withinInterval_def truthyB_def split: option.splits)
  from assms Inr obtain l where
    gl: "GetSuccessorsList comm (successor n1) = Inr l" and m: "m = updateSuccesorsList l n1"
    by (auto simp add: stabilizeTry_def n1_def [symmetric] Let_def split: sum.splits)
  have "set (successorList m) \<subseteq> set l \<union> set (successorList n1)"
    unfolding m by (rule successorList_updateSuccesorsList)
  with l1 id1 gl m show ?thesis
    by (auto simp add: updateSuccesorsList_frame)
qed

lemma stabilizeTry_failure_list:
  assumes "stabilizeTry comm n = (Inl e, m, t)"
  shows "ident m = ident n
     \<and> set (successorList m) \<subseteq> set (successorList n) \<union> {p. ident n < p}"
proof (cases "GetPredecessor comm (successor n)")
  case (Inl e')
  with assms show ?thesis by (auto simp add: stabilizeTry_def)
next
  case (Inr preId)
  define n1 where "n1 = (case preId of
                       None \<Rightarrow> n
                     | Some p \<Rightarrow>
                         if truthyId preId \<and>
                            withinInterval p
                              \<lparr>start = ident n, end' = successor n,
                               includeStart = None, includeEnd = None\<rparr>
                         then set_successor p n else n)"
  have id1: "ident n1 = ident n"
    by (simp add: n1_def set_successor_frame split: option.splits)
  have l1: "set (successorList n1) \<subseteq> set (successorList n) \<union> {p. ident n < p}"
    using successorList_set_successor
    by (auto simp add: n1_def withinInterval_def truthyB_def split: option.splits)
  from assms Inr have "m = n1"
    by (auto simp add: stabilizeTry_def n1_def [symmetric] Let_def split: sum.splits)
  with id1 l1 show ?thesis by simp
qed

lemma stabilizeCatch_list:
  "set (successorList (stabilizeCatch m))
     \<subseteq> insert (successor (stabilizeCatch m)) (set (successorList m))"
proof -
  define m1 where "m1 = m\<lparr>successorList := remove1 (successor m) (successorList m)\<rparr>"
  have c: "stabilizeCatch m = set_successor (getBestSuccessor m1) m1"
    by (simp add: stabilizeCatch_def m1_def Let_def)
  have "set (successorList m1) \<subseteq> set (successorList m)"
    by (simp add: m1_def set_remove1_subset)
  with successorList_set_successor [of "getBestSuccessor m1" m1] show ?thesis
    unfolding c by (auto simp add: set_successor_frame)
qed

text \<open>
  The successor list never holds an identifier twice: \<^verbatim>\<open>updateSuccesorsList\<close> builds it
  from a \<^verbatim>\<open>Set\<close>, and the setter of \<^verbatim>\<open>successor\<close> only removes from it or rebuilds it.
\<close>

lemma distinct_fold_uniq:
  "distinct acc \<Longrightarrow>
     distinct (fold (\<lambda>x acc. if x \<in> set acc then acc else acc @ [x]) xs acc)"
  by (induction xs arbitrary: acc) auto

lemma distinct_uniqueInOrder: "distinct (uniqueInOrder xs)"
  by (simp add: uniqueInOrder_def distinct_fold_uniq)

lemma distinct_insertBy: "distinct (insertBy cmp x ys) = (x \<notin> set ys \<and> distinct ys)"
  by (induction ys) (auto simp add: set_insertBy)

lemma distinct_sortBy: "distinct (sortBy cmp xs) = distinct xs"
  by (induction xs) (simp_all add: sortBy_def distinct_insertBy set_sortBy [unfolded sortBy_def])

lemma distinct_updateSuccesorsList:
  "distinct (successorList (updateSuccesorsList c n))"
  by (simp add: updateSuccesorsList_def distinct_sortBy distinct_uniqueInOrder)

lemma distinct_set_successor:
  assumes "distinct (successorList n)"
  shows "distinct (successorList (set_successor s n))"
  using assms by (simp add: set_successor_def Let_def distinct_updateSuccesorsList)

lemma stabilizeCatch_effect:
  assumes "distinct (successorList m)"
  shows "(remove1 (successor m) (successorList m) = [] \<longrightarrow>
           successor (stabilizeCatch m) = ident m
           \<and> successorList (stabilizeCatch m) = [ident m])
       \<and> (\<forall>x xs. remove1 (successor m) (successorList m) = x # xs \<and> x \<noteq> 0 \<longrightarrow>
           successor (stabilizeCatch m) = x
           \<and> successorList (stabilizeCatch m) = x # xs)
       \<and> dead (stabilizeCatch m)
           = (successor (stabilizeCatch m) = ident m \<and> \<not> truthyId (predecessor m))
       \<and> ident (stabilizeCatch m) = ident m
       \<and> predecessor (stabilizeCatch m) = predecessor m
       \<and> fingers (stabilizeCatch m) = fingers m
       \<and> storage (stabilizeCatch m) = storage m
       \<and> logging (stabilizeCatch m) = logging m
       \<and> fixFingers (stabilizeCatch m) = fixFingers m
       \<and> lifecycleActive (stabilizeCatch m) = lifecycleActive m
       \<and> lifecycleTimeouts (stabilizeCatch m) = lifecycleTimeouts m"
proof -
  define L1 where "L1 = remove1 (successor m) (successorList m)"
  define m1 where "m1 = m\<lparr>successorList := L1\<rparr>"
  have notin: "successor m \<notin> set L1"
    using assms by (simp add: L1_def)
  have idem: "remove1 (successor m1) (successorList m1) = L1"
    using notin by (simp add: m1_def remove1_idem)
  have catch: "stabilizeCatch m = set_successor (getBestSuccessor m1) m1"
    by (simp add: stabilizeCatch_def m1_def L1_def Let_def)
  have empty: "successorList (stabilizeCatch m) = [ident m]"
              "successor (stabilizeCatch m) = ident m" if "L1 = []"
  proof -
    have best: "getBestSuccessor m1 = ident m"
      using that by (simp add: getBestSuccessor_def m1_def)
    show "successorList (stabilizeCatch m) = [ident m]"
      unfolding catch best
      by (rule successorList_set_successor_empty) (simp add: idem that)
    show "successor (stabilizeCatch m) = ident m"
      unfolding catch best by (simp add: set_successor_frame)
  qed
  have nonempty: "successor (stabilizeCatch m) = x
                  \<and> successorList (stabilizeCatch m) = x # xs"
    if "L1 = x # xs" and "x \<noteq> 0" for x xs
  proof -
    have best: "getBestSuccessor m1 = x"
      using that by (simp add: getBestSuccessor_def m1_def)
    have "successorList (set_successor x m1) = remove1 (successor m1) (successorList m1)"
      by (rule successorList_set_successor_present) (simp add: idem that)
    then show ?thesis
      unfolding catch best by (simp add: set_successor_frame idem that)
  qed
  have frame: "dead (stabilizeCatch m)
           = (successor (stabilizeCatch m) = ident m \<and> \<not> truthyId (predecessor m))
       \<and> ident (stabilizeCatch m) = ident m
       \<and> predecessor (stabilizeCatch m) = predecessor m
       \<and> fingers (stabilizeCatch m) = fingers m
       \<and> storage (stabilizeCatch m) = storage m
       \<and> logging (stabilizeCatch m) = logging m
       \<and> fixFingers (stabilizeCatch m) = fixFingers m
       \<and> lifecycleActive (stabilizeCatch m) = lifecycleActive m
       \<and> lifecycleTimeouts (stabilizeCatch m) = lifecycleTimeouts m"
    unfolding catch by (simp add: set_successor_frame m1_def)
  from empty nonempty frame show ?thesis
    unfolding L1_def by blast
qed

lemma joined10_fields:
  "ident joined10 = 10" "successor joined10 = 40" "successorList joined10 = [40]"
  "predecessor joined10 = None" "dead joined10 = False"
  by (simp_all add: joined10_def set_successor_def Node_constructor_def Let_def truthyId_def
        updateSuccesorsList_def uniqueInOrder_def sortBy_def MAX_SUCCESSORS_LIST_LENGTH_def)

lemma joined10_50_fields:
  "ident joined10_50 = 10" "successor joined10_50 = 40" "successorList joined10_50 = [40, 50]"
  "predecessor joined10_50 = None"
  by (simp_all add: joined10_50_def joined10_fields updateSuccesorsList_def uniqueInOrder_def
       sortBy_def MAX_SUCCESSORS_LIST_LENGTH_def successorsCompare_def)

section \<open>Routing: the three steps of \<^verbatim>\<open>findSuccessorForKey\<close>\<close>

lemma findSuccessorForKey_returns:
  "\<exists>r. fst (findSuccessorForKey comm n k) = Inr r"
  by (auto simp add: findSuccessorForKey_def requestSuccessor_def Let_def
        split: sum.splits prod.splits)

text \<open>
  C2, as the claim states it, on node 40 with successor 10 and key 5: on the ring the key
  lies in \<open>(40, 10]\<close>, so by the claim the node would return its successor 10. The test
  of the code is the linear one, which fails; no finger lies between 40 and 5 either, so
  the node returns its own id 40.
\<close>

theorem C2_ring_interval_counterexample:
  "within_spec 5 (ident joined40) (successor joined40) False True
   \<and> successor joined40 = 10
   \<and> findSuccessorForKey unreachable joined40 5 = (Inr 40, [])
   \<and> \<not> (findSuccessorForKey unreachable joined40 5 = (Inr (successor joined40), []))"
  by code_simp

text \<open>
  C2 (amended): for every key, \<^verbatim>\<open>findSuccessorForKey\<close> (find_successor) does one of three
  things, the interval of the first step being the linear one. If \<open>id < key \<le> successor\<close>,
  it returns the successor and sends no request. Otherwise, if the closest preceding finger
  is the node itself, it returns the node's own id and sends no request. Otherwise it sends
  exactly one request \<^verbatim>\<open>FindSuccessorForId\<close> to that finger, returns the answer, and
  returns its own id when the request is rejected. It never throws.
\<close>

theorem C2_findSuccessorForKey:
  "(ident n < k \<and> k \<le> successor n \<longrightarrow>
      findSuccessorForKey comm n k = (Inr (successor n), []))
   \<and> (\<not> (ident n < k \<and> k \<le> successor n) \<and> getClosestPrecedingNode n k = ident n \<longrightarrow>
      findSuccessorForKey comm n k = (Inr (ident n), []))
   \<and> (\<not> (ident n < k \<and> k \<le> successor n) \<and> getClosestPrecedingNode n k \<noteq> ident n \<longrightarrow>
      snd (findSuccessorForKey comm n k)
        = [RpcFindSuccessorForId (getClosestPrecedingNode n k) k]
      \<and> (\<forall>r. FindSuccessorForId comm (getClosestPrecedingNode n k) k = Inr r \<longrightarrow>
             fst (findSuccessorForKey comm n k) = Inr r)
      \<and> (\<forall>e. FindSuccessorForId comm (getClosestPrecedingNode n k) k = Inl e \<longrightarrow>
             fst (findSuccessorForKey comm n k) = Inr (ident n)))
   \<and> (\<exists>r. fst (findSuccessorForKey comm n k) = Inr r)"
  by (auto simp add: findSuccessorForKey_def requestSuccessor_def withinInterval_def
        truthyB_def Let_def split: sum.splits prod.splits)

theorem C2_findSuccessorForKey_witness:
  "(ident joined10 < 25 \<and> 25 \<le> successor joined10)
   \<and> findSuccessorForKey unreachable joined10 25 = (Inr 40, [])
   \<and> \<not> (ident joined10 < 50 \<and> 50 \<le> successor joined10)
   \<and> getClosestPrecedingNode joined10 50 = ident joined10
   \<and> findSuccessorForKey unreachable joined10 50 = (Inr 10, [])
   \<and> \<not> (ident fixed10 < 50 \<and> 50 \<le> successor fixed10)
   \<and> getClosestPrecedingNode fixed10 50 \<noteq> ident fixed10
   \<and> FindSuccessorForId ring_10_40 (getClosestPrecedingNode fixed10 50) 50 = Inr 40
   \<and> findSuccessorForKey ring_10_40 fixed10 50 = (Inr 40, [RpcFindSuccessorForId 40 50])
   \<and> FindSuccessorForId unreachable (getClosestPrecedingNode fixed10 50) 50
        = Inl TransportError
   \<and> findSuccessorForKey unreachable fixed10 50 = (Inr 10, [RpcFindSuccessorForId 40 50])"
proof -
  have a: "ident joined10 < 25 \<and> 25 \<le> successor joined10"
    by (simp add: joined10_fields)
  have b: "\<not> (ident joined10 < 50 \<and> 50 \<le> successor joined10)"
    by (simp add: joined10_fields)
  have c: "getClosestPrecedingNode joined10 50 = ident joined10"
    by code_simp
  have d: "\<not> (ident fixed10 < 50 \<and> 50 \<le> successor fixed10)"
    by code_simp
  have g: "getClosestPrecedingNode fixed10 50 = 40"
    by code_simp
  have i: "ident fixed10 = 10"
    by code_simp
  have r: "FindSuccessorForId ring_10_40 40 50 = Inr 40"
    by (simp add: ring_10_40_def)
  have u: "FindSuccessorForId unreachable 40 50 = Inl TransportError"
    by (simp add: unreachable_def)
  show ?thesis
    using a b c d g i r u
      C2_findSuccessorForKey [of joined10 25 unreachable]
      C2_findSuccessorForKey [of joined10 50 unreachable]
      C2_findSuccessorForKey [of fixed10 50 ring_10_40]
      C2_findSuccessorForKey [of fixed10 50 unreachable]
    by (simp add: joined10_fields prod_eq_iff)
qed

section \<open>Stabilization\<close>

text \<open>
  C3, as the claim states it, on node 10 with successor 40 and successor list \<open>[40]\<close>
  when the first request of the round is rejected. By the claim the round would leave the
  list empty, the successor 10 and every other field as it was. The code leaves
  the list \<open>[10]\<close> (the setter of \<^verbatim>\<open>successor\<close> inserts the new successor) and turns
  \<^verbatim>\<open>dead\<close> from false to true.
\<close>

theorem C3_failure_counterexample:
  "successor joined10 \<noteq> ident joined10
   \<and> GetPredecessor unreachable (successor joined10) = Inl TransportError
   \<and> \<not> (successorList (fst (stabilize unreachable joined10))
           = remove1 (successor joined10) (successorList joined10)
        \<and> successor (fst (stabilize unreachable joined10))
           = (case remove1 (successor joined10) (successorList joined10) of
                [] \<Rightarrow> ident joined10 | x # xs \<Rightarrow> x)
        \<and> dead (fst (stabilize unreachable joined10)) = dead joined10
        \<and> predecessor (fst (stabilize unreachable joined10)) = predecessor joined10)"
  by (simp add: joined10_fields unreachable_def stabilize_def stabilizeTry_def stabilizeCatch_def
        set_successor_def getBestSuccessor_def Let_def truthyId_def
        updateSuccesorsList_def uniqueInOrder_def sortBy_def MAX_SUCCESSORS_LIST_LENGTH_def)

text \<open>
  C3 (amended): when a request of a stabilize round is rejected, with \<open>m\<close> the state at that
  moment and its successor list free of duplicates, the node removes the failed successor
  from the list; if the list is then empty, the successor becomes the node's own id and the
  list becomes that single id; if the list then starts with a nonzero entry, the successor
  becomes that entry and the list stays as it is after the removal. \<^verbatim>\<open>dead\<close> is recomputed
  from the new successor and the predecessor; the id, the predecessor, the fingers, the
  storage and the remaining fields are not modified. The requests sent are those of the
  \<^verbatim>\<open>try\<close> block.
\<close>

theorem C3_stabilize_failure:
  assumes "successor n \<noteq> ident n"
      and "stabilizeTry comm n = (Inl e, m, t)"
      and "distinct (successorList m)"
  shows "snd (stabilize comm n) = t
       \<and> (remove1 (successor m) (successorList m) = [] \<longrightarrow>
           successor (fst (stabilize comm n)) = ident m
           \<and> successorList (fst (stabilize comm n)) = [ident m])
       \<and> (\<forall>x xs. remove1 (successor m) (successorList m) = x # xs \<and> x \<noteq> 0 \<longrightarrow>
           successor (fst (stabilize comm n)) = x
           \<and> successorList (fst (stabilize comm n)) = x # xs)
       \<and> dead (fst (stabilize comm n))
           = (successor (fst (stabilize comm n)) = ident m \<and> \<not> truthyId (predecessor m))
       \<and> ident (fst (stabilize comm n)) = ident m
       \<and> predecessor (fst (stabilize comm n)) = predecessor m
       \<and> fingers (fst (stabilize comm n)) = fingers m
       \<and> storage (fst (stabilize comm n)) = storage m
       \<and> logging (fst (stabilize comm n)) = logging m
       \<and> fixFingers (fst (stabilize comm n)) = fixFingers m
       \<and> lifecycleActive (fst (stabilize comm n)) = lifecycleActive m
       \<and> lifecycleTimeouts (fst (stabilize comm n)) = lifecycleTimeouts m"
proof -
  have s: "stabilize comm n = (stabilizeCatch m, t)"
    using assms(1,2) by (simp add: stabilize_def)
  show ?thesis
    unfolding s fst_conv snd_conv
    using stabilizeCatch_effect [OF assms(3)] by simp
qed

theorem C3_stabilize_failure_witness:
  "successor joined10 \<noteq> ident joined10
   \<and> stabilizeTry unreachable joined10 = (Inl TransportError, joined10, [RpcGetPredecessor 40])
   \<and> distinct (successorList joined10)
   \<and> successor (fst (stabilize unreachable joined10)) = 10
   \<and> successorList (fst (stabilize unreachable joined10)) = [10]
   \<and> dead (fst (stabilize unreachable joined10))
   \<and> successor joined10_50 \<noteq> ident joined10_50
   \<and> stabilizeTry unreachable joined10_50
        = (Inl TransportError, joined10_50, [RpcGetPredecessor 40])
   \<and> distinct (successorList joined10_50)
   \<and> successor (fst (stabilize unreachable joined10_50)) = 50
   \<and> successorList (fst (stabilize unreachable joined10_50)) = [50]
   \<and> \<not> dead (fst (stabilize unreachable joined10_50))"
proof -
  have a1: "successor joined10 \<noteq> ident joined10"
    by (simp add: joined10_fields)
  have a2: "stabilizeTry unreachable joined10
              = (Inl TransportError, joined10, [RpcGetPredecessor 40])"
    by (simp add: stabilizeTry_def unreachable_def joined10_fields)
  have a3: "distinct (successorList joined10)"
    by (simp add: joined10_fields)
  have b1: "successor joined10_50 \<noteq> ident joined10_50"
    by (simp add: joined10_50_fields)
  have b2: "stabilizeTry unreachable joined10_50
              = (Inl TransportError, joined10_50, [RpcGetPredecessor 40])"
    by (simp add: stabilizeTry_def unreachable_def joined10_50_fields)
  have b3: "distinct (successorList joined10_50)"
    by (simp add: joined10_50_fields)
  show ?thesis
    using a1 a2 a3 b1 b2 b3 C3_stabilize_failure [OF a1 a2 a3] C3_stabilize_failure [OF b1 b2 b3]
    by (simp add: joined10_fields joined10_50_fields truthyId_def)
qed

text \<open>
  C4, as the claim states it, on the revision of \<^verbatim>\<open>src/src/node.ts\<close>: node 10 is its own
  successor and has predecessor 40. The stabilize tick sends \<^verbatim>\<open>FindSuccessorForId\<close> to
  node 40 and assigns the answer, 40, to the successor; when the request is rejected it
  clears the predecessor.
\<close>

theorem C4_singleton_counterexample:
  "successor_e notified10_e = ident_e notified10_e
   \<and> predecessor_e notified10_e = Some 40
   \<and> snd (stabilize_e ring_10_40 notified10_e) = [RpcFindSuccessorForId 40 10]
   \<and> successor_e (fst (stabilize_e ring_10_40 notified10_e)) = 40
   \<and> predecessor_e (fst (stabilize_e unreachable notified10_e)) = None
   \<and> \<not> (stabilize_e ring_10_40 notified10_e = (notified10_e, []))"
proof -
  have sent: "snd (stabilize_e ring_10_40 notified10_e) = [RpcFindSuccessorForId 40 10]"
    by code_simp
  have rest: "successor_e notified10_e = ident_e notified10_e
      \<and> predecessor_e notified10_e = Some 40
      \<and> successor_e (fst (stabilize_e ring_10_40 notified10_e)) = 40
      \<and> predecessor_e (fst (stabilize_e unreachable notified10_e)) = None"
    by code_simp
  from sent have "stabilize_e ring_10_40 notified10_e \<noteq> (notified10_e, [])"
    by auto
  with sent rest show ?thesis by simp
qed

text \<open>
  C4 (amended): for every node state whose successor is the node's own id, a stabilize
  tick of the revision with successor lists sends no request and returns the state as it
  was. In the revision of \<^verbatim>\<open>src/src/node.ts\<close> the same holds when the predecessor is
  \<^verbatim>\<open>undefined\<close> or \<^verbatim>\<open>0n\<close>; with any other predecessor \<open>p\<close> the tick sends exactly one
  request, \<^verbatim>\<open>FindSuccessorForId\<close> to \<open>p\<close> for the node's own id, and then either assigns the
  answer to the successor or, when the request is rejected, clears the predecessor, all
  other fields staying as they were.
\<close>

theorem C4_stabilize_singleton:
  "(successor n = ident n \<longrightarrow> stabilize comm n = (n, []))
   \<and> (successor_e m = ident_e m \<and> \<not> truthyId (predecessor_e m) \<longrightarrow>
        stabilize_e comm m = (m, []))
   \<and> (successor_e m = ident_e m \<and> predecessor_e m = Some p \<and> p \<noteq> 0 \<longrightarrow>
        snd (stabilize_e comm m) = [RpcFindSuccessorForId p (ident_e m)]
        \<and> (\<forall>r. FindSuccessorForId comm p (ident_e m) = Inr r \<longrightarrow>
               fst (stabilize_e comm m) = m\<lparr>successor_e := r\<rparr>)
        \<and> (\<forall>e. FindSuccessorForId comm p (ident_e m) = Inl e \<longrightarrow>
               fst (stabilize_e comm m) = m\<lparr>predecessor_e := None\<rparr>))"
  by (auto simp add: stabilize_def stabilize_e_def requestSuccessor_def truthyId_def
        set_successor_e_def set_predecessor_e_def split: sum.splits option.splits)

theorem C4_stabilize_singleton_witness:
  "successor (notify 40 (Node_constructor 10 None)) = ident (notify 40 (Node_constructor 10 None))
   \<and> predecessor (notify 40 (Node_constructor 10 None)) = Some 40
   \<and> stabilize ring_10_40 (notify 40 (Node_constructor 10 None))
       = (notify 40 (Node_constructor 10 None), [])
   \<and> successor_e (NodeEarlier_constructor 10 None) = ident_e (NodeEarlier_constructor 10 None)
   \<and> \<not> truthyId (predecessor_e (NodeEarlier_constructor 10 None))
   \<and> stabilize_e ring_10_40 (NodeEarlier_constructor 10 None)
       = (NodeEarlier_constructor 10 None, [])
   \<and> successor_e notified10_e = ident_e notified10_e
   \<and> predecessor_e notified10_e = Some 40
   \<and> FindSuccessorForId ring_10_40 40 (ident_e notified10_e) = Inr 40
   \<and> snd (stabilize_e ring_10_40 notified10_e) = [RpcFindSuccessorForId 40 10]
   \<and> fst (stabilize_e ring_10_40 notified10_e) = notified10_e\<lparr>successor_e := 40\<rparr>
   \<and> FindSuccessorForId unreachable 40 (ident_e notified10_e) = Inl TransportError
   \<and> fst (stabilize_e unreachable notified10_e) = notified10_e\<lparr>predecessor_e := None\<rparr>"
proof -
  have a1: "successor (notify 40 (Node_constructor 10 None))
              = ident (notify 40 (Node_constructor 10 None))"
    by (simp add: notify_def set_predecessor_frame Node_constructor_def)
  have a2: "predecessor (notify 40 (Node_constructor 10 None)) = Some 40"
    by (simp add: notify_def set_predecessor_frame Node_constructor_def truthyId_def)
  have b1: "successor_e (NodeEarlier_constructor 10 None)
              = ident_e (NodeEarlier_constructor 10 None)"
    by (simp add: NodeEarlier_constructor_def)
  have b2: "\<not> truthyId (predecessor_e (NodeEarlier_constructor 10 None))"
    by (simp add: NodeEarlier_constructor_def truthyId_def)
  have c0: "ident_e notified10_e = 10"
    by (simp add: notified10_e_def notify_e_def set_predecessor_e_def
          NodeEarlier_constructor_def)
  have c1: "successor_e notified10_e = ident_e notified10_e"
    by (simp add: notified10_e_def notify_e_def set_predecessor_e_def
          NodeEarlier_constructor_def)
  have c2: "predecessor_e notified10_e = Some 40"
    by (simp add: notified10_e_def notify_e_def set_predecessor_e_def
          NodeEarlier_constructor_def truthyId_def)
  have r: "FindSuccessorForId ring_10_40 40 10 = Inr 40"
    by (simp add: ring_10_40_def)
  have u: "FindSuccessorForId unreachable 40 10 = Inl TransportError"
    by (simp add: unreachable_def)
  show ?thesis
    using a1 a2 b1 b2 c0 c1 c2 r u
      C4_stabilize_singleton [of "notify 40 (Node_constructor 10 None)" ring_10_40
        "NodeEarlier_constructor 10 None" 40]
      C4_stabilize_singleton [of "notify 40 (Node_constructor 10 None)" ring_10_40
        notified10_e 40]
      C4_stabilize_singleton [of "notify 40 (Node_constructor 10 None)" unreachable
        notified10_e 40]
    by simp
qed

section \<open>The node's own id in the successor list\<close>

text \<open>
  C6, as the claim states it, on node 10 in the two-node ring with node 40: node 10 has
  successor 40 and its list does not hold 10. One stabilize round merges the list \<open>[10]\<close>
  that node 40 returns, after which node 10's own id is in its successor list; so is it
  after \<^verbatim>\<open>updateSuccesorsList(10n)\<close>.
\<close>

theorem C6_self_in_list_counterexample:
  "successor joined10 = 40
   \<and> ident joined10 \<notin> set (successorList joined10)
   \<and> ident joined10 \<in> set (successorList (fst (stabilize ring_10_40 joined10)))
   \<and> ident joined10 \<in> set (successorList (updateSuccesorsList [10] joined10))"
  by code_simp

text \<open>
  C6 (amended): after \<^verbatim>\<open>updateSuccesorsList\<close> with candidates \<open>c\<close> the node's own id is in
  the successor list only if it is among \<open>c\<close> or was in the list before; after the
  assignment \<open>successor := s\<close> only if \<open>s\<close> is the own id or it was in the list before; after
  a stabilize round in which no request is rejected only if it was in the list before or
  is in the list the successor returned; after a stabilize round (of a node that is not
  its own successor) in which a request is rejected only if it was in the list before or
  the node has become its own successor.
\<close>

theorem C6_self_only_as_given:
  "(ident n \<in> set (successorList (updateSuccesorsList c n)) \<longrightarrow>
      ident n \<in> set c \<or> ident n \<in> set (successorList n))
   \<and> (ident n \<in> set (successorList (set_successor s n)) \<longrightarrow>
      s = ident n \<or> ident n \<in> set (successorList n))
   \<and> (stabilizeTry comm n = (Inr u, m, t) \<and> ident n \<in> set (successorList m) \<longrightarrow>
      ident n \<in> set (successorList n)
      \<or> (\<exists>l. GetSuccessorsList comm (successor m) = Inr l \<and> ident n \<in> set l))
   \<and> (successor n \<noteq> ident n \<and> stabilizeTry comm n = (Inl e, m, t)
        \<and> ident n \<in> set (successorList (fst (stabilize comm n))) \<longrightarrow>
      ident n \<in> set (successorList n) \<or> successor (fst (stabilize comm n)) = ident n)"
proof (intro conjI impI)
  assume "ident n \<in> set (successorList (updateSuccesorsList c n))"
  then show "ident n \<in> set c \<or> ident n \<in> set (successorList n)"
    using successorList_updateSuccesorsList [of c n] by auto
next
  assume "ident n \<in> set (successorList (set_successor s n))"
  then show "s = ident n \<or> ident n \<in> set (successorList n)"
    using successorList_set_successor [of s n] by auto
next
  assume a: "stabilizeTry comm n = (Inr u, m, t) \<and> ident n \<in> set (successorList m)"
  then show "ident n \<in> set (successorList n)
      \<or> (\<exists>l. GetSuccessorsList comm (successor m) = Inr l \<and> ident n \<in> set l)"
    using stabilizeTry_success_list [of comm n u m t] by auto
next
  assume a: "successor n \<noteq> ident n \<and> stabilizeTry comm n = (Inl e, m, t)
        \<and> ident n \<in> set (successorList (fst (stabilize comm n)))"
  then have s: "fst (stabilize comm n) = stabilizeCatch m"
    by (simp add: stabilize_def)
  from a show "ident n \<in> set (successorList n) \<or> successor (fst (stabilize comm n)) = ident n"
    unfolding s
    using stabilizeTry_failure_list [of comm n e m t] stabilizeCatch_list [of m]
    by (fastforce simp add: subset_iff)
qed

theorem C6_self_only_as_given_witness:
  "ident joined10 \<in> set (successorList (updateSuccesorsList [10] joined10))
   \<and> (ident joined10 \<in> set [10] \<or> ident joined10 \<in> set (successorList joined10))
   \<and> ident joined10 \<in> set (successorList (set_successor 10 joined10))
   \<and> (10 = ident joined10 \<or> ident joined10 \<in> set (successorList joined10))
   \<and> stabilizeTry ring_10_40 joined10
        = (Inr (), fst (stabilize ring_10_40 joined10), snd (stabilize ring_10_40 joined10))
   \<and> ident joined10 \<in> set (successorList (fst (stabilize ring_10_40 joined10)))
   \<and> (ident joined10 \<in> set (successorList joined10)
      \<or> (\<exists>l. GetSuccessorsList ring_10_40 (successor (fst (stabilize ring_10_40 joined10)))
                = Inr l \<and> ident joined10 \<in> set l))
   \<and> successor joined10 \<noteq> ident joined10
   \<and> stabilizeTry unreachable joined10
        = (Inl TransportError, joined10, [RpcGetPredecessor 40])
   \<and> ident joined10 \<in> set (successorList (fst (stabilize unreachable joined10)))
   \<and> (ident joined10 \<in> set (successorList joined10)
      \<or> successor (fst (stabilize unreachable joined10)) = ident joined10)"
proof -
  have a: "ident joined10 \<in> set (successorList (updateSuccesorsList [10] joined10))"
    by code_simp
  have b: "ident joined10 \<in> set (successorList (set_successor 10 joined10))"
    by code_simp
  have c: "stabilizeTry ring_10_40 joined10
        = (Inr (), fst (stabilize ring_10_40 joined10), snd (stabilize ring_10_40 joined10))"
    by (simp add: stabilize_def stabilizeTry_def ring_10_40_def joined10_fields Let_def
          truthyId_def withinInterval_def truthyB_def)
  have d: "ident joined10 \<in> set (successorList (fst (stabilize ring_10_40 joined10)))"
    by code_simp
  have f: "successor joined10 \<noteq> ident joined10"
    by (simp add: joined10_fields)
  have g: "stabilizeTry unreachable joined10
             = (Inl TransportError, joined10, [RpcGetPredecessor 40])"
    by (simp add: stabilizeTry_def unreachable_def joined10_fields)
  have h: "ident joined10 \<in> set (successorList (fst (stabilize unreachable joined10)))"
    by code_simp
  show ?thesis
    using a b c d f g h
      C6_self_only_as_given [of joined10 "[10]" 10 ring_10_40 "()"
        "fst (stabilize ring_10_40 joined10)" "snd (stabilize ring_10_40 joined10)"
        TransportError]
      C6_self_only_as_given [of joined10 "[10]" 10 unreachable "()"
        joined10 "[RpcGetPredecessor 40]" TransportError]
    by blast
qed

section \<open>The \<^verbatim>\<open>dead\<close> flag\<close>

text \<open>
  C7 asks that \<^verbatim>\<open>dead\<close> equal \<open>successor = id \<and> predecessor = None\<close> in every state, the
  state after construction included. The constructor writes \<^verbatim>\<open>_successor\<close> directly and
  leaves \<^verbatim>\<open>dead\<close> at its initial value: a node constructed with id 10 and no successor
  argument has its own id as successor and no predecessor, and \<^verbatim>\<open>dead\<close> is false.
\<close>

theorem C7_constructor_dead_flag:
  "dead (Node_constructor 10 None) = False
   \<and> successor (Node_constructor 10 None) = ident (Node_constructor 10 None)
   \<and> predecessor (Node_constructor 10 None) = None"
  by (simp add: Node_constructor_def)

text \<open>
  Both setters recompute the flag, with the predecessor tested for truthiness: a
  predecessor \<^verbatim>\<open>0n\<close> counts as absent.
\<close>

lemma setters_recompute_dead:
  "dead (set_successor s n) = (successor (set_successor s n) = ident (set_successor s n)
      \<and> \<not> truthyId (predecessor (set_successor s n)))"
  "dead (set_predecessor p n) = (successor (set_predecessor p n) = ident (set_predecessor p n)
      \<and> \<not> truthyId (predecessor (set_predecessor p n)))"
  by (simp_all add: set_successor_frame set_predecessor_frame)

section \<open>Notification\<close>

text \<open>
  When the predecessor is not \<^verbatim>\<open>0n\<close>, \<^verbatim>\<open>notify\<close> sets it exactly when it is absent or the
  candidate lies strictly between it and the node's id.
\<close>

lemma notify_sets_predecessor:
  assumes "predecessor n \<noteq> Some 0"
  shows "notify i n =
           (if predecessor n = None \<or> (\<exists>p. predecessor n = Some p \<and> p < i \<and> i < ident n)
            then set_predecessor (Some i) n else n)"
  using assms
  by (auto simp add: notify_def truthyId_def withinInterval_def truthyB_def
        split: option.splits)

text \<open>
  C8: \<^verbatim>\<open>notify\<close> is idempotent: for every node state and every id \<open>x\<close>, applying
  \<open>notify x\<close> twice leaves the node in exactly the state that applying it once does.
  (\<^verbatim>\<open>notify\<close> sets the predecessor to the candidate when the predecessor is falsy or the
  candidate lies in the open interval from the predecessor to the node's id.)
\<close>

theorem C8_notify_idempotent:
  "notify x (notify x n) = notify x n"
  by (auto simp add: notify_def set_predecessor_def truthyId_def withinInterval_def truthyB_def
        split: option.splits)

theorem C8_notify_idempotent_witness:
  "predecessor (notify 5 joined10) = Some 5
   \<and> notify 5 (notify 5 joined10) = notify 5 joined10"
proof -
  have a: "predecessor (notify 5 joined10) = Some 5"
    by (simp add: notify_def joined10_fields truthyId_def set_predecessor_frame)
  show ?thesis
    using a C8_notify_idempotent [of 5 joined10] by simp
qed

section \<open>The round-robin counter of \<^verbatim>\<open>fixFingers\<close>\<close>

lemma fixFingersNext_counter:
  assumes "fixFingers n = Counter c"
      and "c < length (fingers n)"
      and "2 \<le> length (fingers n)"
  shows "\<exists>n'. fixFingersNext comm n = (None, n')
           \<and> fixFingers n' = Counter ((c + 1) mod (length (fingers n) - 1))
           \<and> length (fingers n') = length (fingers n)
           \<and> (\<forall>j. j \<noteq> c \<longrightarrow> fingers n' ! j = fingers n ! j)"
proof -
  obtain r where r: "fst (findSuccessorForKey comm n (ident n + 2 ^ c)) = Inr r"
    using findSuccessorForKey_returns by blast
  have nz: "length (fingers n) - 1 \<noteq> 0"
    using assms(3) by simp
  show ?thesis
    using assms(1,2) r nz by (simp add: fixFingersNext_def)
qed

lemma fixFingersRun_counter:
  assumes "2 \<le> length (fingers n)"
      and "fixFingers n = Counter c"
      and "c < length (fingers n) - 1"
  shows "\<exists>n'. fixFingersRun comms n = (None, n')
           \<and> fixFingers n' = Counter ((c + length comms) mod (length (fingers n) - 1))
           \<and> length (fingers n') = length (fingers n)
           \<and> fingers n' ! (length (fingers n) - 1) = fingers n ! (length (fingers n) - 1)"
  using assms
proof (induction comms arbitrary: n c)
  case Nil
  then show ?case by simp
next
  case (Cons comm comms)
  have lt: "c < length (fingers n)"
    using Cons.prems(3) by simp
  obtain n1 where n1: "fixFingersNext comm n = (None, n1)"
      and c1: "fixFingers n1 = Counter ((c + 1) mod (length (fingers n) - 1))"
      and l1: "length (fingers n1) = length (fingers n)"
      and f1: "\<forall>j. j \<noteq> c \<longrightarrow> fingers n1 ! j = fingers n ! j"
    using fixFingersNext_counter [OF Cons.prems(2) lt Cons.prems(1), of comm] by blast
  have last1: "fingers n1 ! (length (fingers n) - 1) = fingers n ! (length (fingers n) - 1)"
    using f1 Cons.prems(3) by simp
  have b1: "(c + 1) mod (length (fingers n) - 1) < length (fingers n1) - 1"
    using Cons.prems(1) l1 by simp
  have c1': "fixFingers n1 = Counter ((c + 1) mod (length (fingers n1) - 1))"
    using c1 l1 by simp
  obtain n' where r: "fixFingersRun comms n1 = (None, n')"
      and c': "fixFingers n'
                 = Counter (((c + 1) mod (length (fingers n1) - 1) + length comms)
                            mod (length (fingers n1) - 1))"
      and l': "length (fingers n') = length (fingers n1)"
      and f': "fingers n' ! (length (fingers n1) - 1) = fingers n1 ! (length (fingers n1) - 1)"
    using Cons.IH [of n1 "(c + 1) mod (length (fingers n1) - 1)"] Cons.prems(1) l1 c1' b1
    by auto
  have m: "((c + 1) mod (length (fingers n1) - 1) + length comms) mod (length (fingers n1) - 1)
             = (c + length (comm # comms)) mod (length (fingers n) - 1)"
    by (simp add: l1 mod_add_left_eq)
  show ?case
    using n1 r c' l' f' l1 last1 m by simp
qed

text \<open>
  C5: the counter of \<^verbatim>\<open>fixFingers\<close> starts at 0; a tick at counter \<open>c\<close> leaves it at
  \<open>(c + 1) mod (M - 1)\<close>, where \<open>M\<close> is the length of the finger table (at least 2; it is
  \<open>KEY_BITS\<close> for a constructed node). Consequently, after any number of ticks from a fresh
  generator, whatever the transport answers, the counter is the number of ticks modulo
  \<open>M - 1\<close>, a value below \<open>M - 1\<close>, and the finger at index \<open>M - 1\<close> is the one the table
  had at the start.
\<close>

theorem C5_fix_fingers_counter:
  "fixFingers (Node_constructor i s) = Counter 0
   \<and> length (fingers (Node_constructor i s)) = KEY_BITS
   \<and> (2 \<le> length (fingers n) \<and> fixFingers n = Counter c \<and> c < length (fingers n) \<longrightarrow>
        fst (fixFingersNext comm n) = None
        \<and> fixFingers (snd (fixFingersNext comm n))
            = Counter ((c + 1) mod (length (fingers n) - 1)))
   \<and> (2 \<le> length (fingers n) \<and> fixFingers n = Counter 0 \<longrightarrow>
        (\<exists>n'. fixFingersRun comms n = (None, n')
           \<and> fixFingers n' = Counter (length comms mod (length (fingers n) - 1))
           \<and> length comms mod (length (fingers n) - 1) < length (fingers n) - 1
           \<and> length (fingers n') = length (fingers n)
           \<and> fingers n' ! (length (fingers n) - 1) = fingers n ! (length (fingers n) - 1)))"
proof (intro conjI impI)
  show "fixFingers (Node_constructor i s) = Counter 0"
    by (simp add: Node_constructor_def)
  show "length (fingers (Node_constructor i s)) = KEY_BITS"
    by (simp add: Node_constructor_def createFingerTable_def shell_def)
next
  assume a: "2 \<le> length (fingers n) \<and> fixFingers n = Counter c \<and> c < length (fingers n)"
  then obtain n' where "fixFingersNext comm n = (None, n')"
      and "fixFingers n' = Counter ((c + 1) mod (length (fingers n) - 1))"
    using fixFingersNext_counter [of n c comm] by blast
  then show "fst (fixFingersNext comm n) = None"
    and "fixFingers (snd (fixFingersNext comm n))
            = Counter ((c + 1) mod (length (fingers n) - 1))"
    by simp_all
next
  assume a: "2 \<le> length (fingers n) \<and> fixFingers n = Counter 0"
  then have "0 < length (fingers n) - 1" by simp
  then show "\<exists>n'. fixFingersRun comms n = (None, n')
           \<and> fixFingers n' = Counter (length comms mod (length (fingers n) - 1))
           \<and> length comms mod (length (fingers n) - 1) < length (fingers n) - 1
           \<and> length (fingers n') = length (fingers n)
           \<and> fingers n' ! (length (fingers n) - 1) = fingers n ! (length (fingers n) - 1)"
    using a fixFingersRun_counter [of n 0 comms] by auto
qed

theorem C5_fix_fingers_counter_witness:
  "2 \<le> length (fingers joined10) \<and> fixFingers joined10 = Counter 0
   \<and> length (fingers joined10) = 8
   \<and> fixFingers (snd (fixFingersNext ring_10_40 joined10)) = Counter 1
   \<and> (\<exists>n'. fixFingersRun (replicate 9 unreachable) joined10 = (None, n')
          \<and> fixFingers n' = Counter 2
          \<and> fingers n' ! 7 = fingers joined10 ! 7)"
proof -
  have l: "length (fingers joined10) = 8"
    by (simp add: joined10_def set_successor_frame Node_constructor_def createFingerTable_def
          shell_def KEY_BITS_def)
  have c: "fixFingers joined10 = Counter 0"
    by (simp add: joined10_def set_successor_frame Node_constructor_def)
  show ?thesis
    using l c
      C5_fix_fingers_counter [of 10 None joined10 0 ring_10_40 "replicate 9 unreachable"]
    by auto
qed

section \<open>The lifecycle flag\<close>

lemma stabilize_lifecycleActive:
  "lifecycleActive (fst (stabilize comm n)) = lifecycleActive n"
proof -
  have c: "lifecycleActive (stabilizeCatch m) = lifecycleActive m" for m
    by (simp add: stabilizeCatch_def Let_def set_successor_frame)
  have t: "lifecycleActive (fst (snd (stabilizeTry comm n))) = lifecycleActive n"
    by (simp add: stabilizeTry_def Let_def set_successor_frame updateSuccesorsList_frame
          split: sum.splits option.splits)
  show ?thesis
  proof (cases "stabilizeTry comm n")
    case (fields r m tr)
    with t have "lifecycleActive m = lifecycleActive n" by simp
    with fields c [of m] show ?thesis
      by (simp add: stabilize_def split: sum.splits)
  qed
qed

lemma fixFingersNext_lifecycleActive:
  "lifecycleActive (snd (fixFingersNext comm n)) = lifecycleActive n"
  by (simp add: fixFingersNext_def split: FixFingersGen.splits sum.splits)

lemma checkPredecessor_lifecycleActive:
  "lifecycleActive (fst (checkPredecessor comm n)) = lifecycleActive n"
  by (simp add: checkPredecessor_def set_predecessor_frame split: option.splits sum.splits)

lemma notify_lifecycleActive:
  "lifecycleActive (notify i n) = lifecycleActive n"
  by (simp add: notify_def set_predecessor_frame)

lemma setTimeoutOf_lifecycleActive:
  "lifecycleActive (setTimeoutOf t v n) = lifecycleActive n"
  by (simp add: setTimeoutOf_def split: Task.splits)

lemma stopLifecycle_lifecycleActive:
  "lifecycleActive (stopLifecycle n) = lifecycleActive n"
  by (simp add: stopLifecycle_def)

lemma tickBody_lifecycleActive:
  "lifecycleActive (snd (tickBody t comm n)) = lifecycleActive n"
  by (simp add: tickBody_def stabilize_lifecycleActive fixFingersNext_lifecycleActive
        checkPredecessor_lifecycleActive split: Task.splits)

lemma step_lifecycleActive:
  assumes "lifecycleActive (node w)"
  shows "lifecycleActive (node (step ev w))"
proof (cases ev)
  case (CallStartLifecycle a b c)
  with assms show ?thesis by (simp add: step_def startLifecycle_def)
next
  case CallStopLifecycle
  with assms show ?thesis by (simp add: step_def stopLifecycle_lifecycleActive)
next
  case (TickResolves t comm)
  obtain e n' where b: "tickBody t comm (node w) = (e, n')"
    by (cases "tickBody t comm (node w)")
  with tickBody_lifecycleActive [of t comm "node w"] assms
  have "lifecycleActive n'" by simp
  with TickResolves b assms show ?thesis
    by (simp add: step_def setTimeoutOf_lifecycleActive split: option.splits)
next
  case (TimerFires t)
  with assms show ?thesis by (simp add: step_def setTimeoutOf_lifecycleActive)
next
  case (CallNotify i)
  with assms show ?thesis by (simp add: step_def notify_lifecycleActive)
qed

lemma run_lifecycleActive:
  assumes "lifecycleActive (node w)"
  shows "lifecycleActive (node (run evs w))"
  using assms
proof (induction evs arbitrary: w)
  case Nil
  then show ?case by (simp add: run_def)
next
  case (Cons ev evs)
  from Cons.prems have "lifecycleActive (node (step ev w))"
    by (rule step_lifecycleActive)
  then have "lifecycleActive (node (run evs (step ev w)))"
    by (rule Cons.IH)
  then show ?case by (simp add: run_def)
qed

lemma step_start_when_active:
  assumes "lifecycleActive (node w)"
  shows "step (CallStartLifecycle a b c) w = w"
  using assms by (simp add: step_def startLifecycle_def)

text \<open>
  C10: once \<^verbatim>\<open>startLifecycle\<close> has been called, \<^verbatim>\<open>lifecycleActive\<close> is true in every later
  state, whatever happens next (calls of \<^verbatim>\<open>stopLifecycle\<close> and \<^verbatim>\<open>startLifecycle\<close>, ticks
  resolving, timers firing, notifications). \<^verbatim>\<open>stopLifecycle\<close> clears the three timers and
  leaves the flag as it is. So every later call of \<^verbatim>\<open>startLifecycle\<close> invokes no tick and
  changes nothing.
\<close>

theorem C10_lifecycle_never_restarts:
  "lifecycleActive (node (run evs (step (CallStartLifecycle a b c) w)))
   \<and> lifecycleActive (stopLifecycle n) = lifecycleActive n
   \<and> lifecycleTimeouts (stopLifecycle n)
       = \<lparr>stab = clearTimeout (stab (lifecycleTimeouts n)),
          fing = clearTimeout (fing (lifecycleTimeouts n)),
          pred = clearTimeout (pred (lifecycleTimeouts n))\<rparr>
   \<and> startLifecycle a' b' c' (node (run evs (step (CallStartLifecycle a b c) w)))
       = (node (run evs (step (CallStartLifecycle a b c) w)), [])
   \<and> step (CallStartLifecycle a' b' c') (run evs (step (CallStartLifecycle a b c) w))
       = run evs (step (CallStartLifecycle a b c) w)"
proof -
  have s: "lifecycleActive (node (step (CallStartLifecycle a b c) w))"
    by (simp add: step_def startLifecycle_def)
  have r: "lifecycleActive (node (run evs (step (CallStartLifecycle a b c) w)))"
    using s by (rule run_lifecycleActive)
  have st: "startLifecycle a' b' c' (node (run evs (step (CallStartLifecycle a b c) w)))
       = (node (run evs (step (CallStartLifecycle a b c) w)), [])"
    using r by (simp add: startLifecycle_def)
  have sp: "step (CallStartLifecycle a' b' c') (run evs (step (CallStartLifecycle a b c) w))
       = run evs (step (CallStartLifecycle a b c) w)"
    using r by (rule step_start_when_active)
  show ?thesis
    using r st sp by (simp add: stopLifecycle_def)
qed

theorem C10_lifecycle_never_restarts_witness:
  "\<not> lifecycleActive (node world10)
   \<and> inflight (step (CallStartLifecycle 500 500 1000) world10)
       = [TickStabilize, TickFixFingers, TickCheckPredecessor]
   \<and> lifecycleActive
       (node (run [TickResolves TickStabilize ring_10_40, CallStopLifecycle]
                (step (CallStartLifecycle 500 500 1000) world10)))
   \<and> step (CallStartLifecycle 500 500 1000)
        (run [TickResolves TickStabilize ring_10_40, CallStopLifecycle]
           (step (CallStartLifecycle 500 500 1000) world10))
       = run [TickResolves TickStabilize ring_10_40, CallStopLifecycle]
           (step (CallStartLifecycle 500 500 1000) world10)"
proof -
  have a: "\<not> lifecycleActive (node world10)"
    by (simp add: world10_def joined10_def set_successor_frame Node_constructor_def)
  have b: "inflight (step (CallStartLifecycle 500 500 1000) world10)
       = [TickStabilize, TickFixFingers, TickCheckPredecessor]"
    using a by (simp add: step_def startLifecycle_def world10_def)
  show ?thesis
    using a b
      C10_lifecycle_never_restarts [of "[TickResolves TickStabilize ring_10_40, CallStopLifecycle]"
        500 500 1000 world10 joined10 500 500 1000]
    by simp
qed

end
